theory Spec2Isabelle
  imports Complex_Main "HOL-Library.Sublist"
begin

section \<open>Session manager: last-location persistence\<close>

text \<open>
  The class \<open>SessionManager\<close> keeps one entry of browser-local storage under the key
  \<open>LOCATION_KEY\<close>. The entry is written by \<open>JSON.stringify\<close> and read back by
  \<open>JSON.parse\<close>; the two are inverse on the objects written here, so the storage is
  modelled as holding the object itself. An item that \<open>JSON.parse\<close> rejects (or the
  empty string, which the \<open>!stored\<close> test treats like a missing item) is \<open>Unparsable\<close>.
  \<open>Date.now()\<close> counts whole milliseconds and is an \<open>int\<close>.
\<close>

record SessionState =
  lastLocation :: "string option"
  timestamp :: int

datatype stored_item = Json SessionState | Unparsable

type_synonym localStorage = "string \<rightharpoonup> stored_item"

text \<open>
  What the functions read from the browser: whether \<open>window\<close> is defined, the value of
  \<open>Date.now()\<close>, and whether \<open>localStorage.setItem\<close> throws (quota exceeded), which the
  surrounding \<open>try\<close>/\<open>catch\<close> turns into "nothing stored".
\<close>

record browser =
  window_defined :: bool
  now :: int
  setItem_throws :: bool

definition LOCATION_KEY :: string where
  "LOCATION_KEY = ''passiveWealth_lastLocation''"

definition SESSION_TIMEOUT :: int where
  "SESSION_TIMEOUT = 24 * 60 * 60 * 1000"

definition storeLocation :: "browser \<Rightarrow> string \<Rightarrow> localStorage \<Rightarrow> localStorage" where
  "storeLocation b path ls =
     (if \<not> window_defined b then ls
      else if path = ''/auth/callback'' \<or> path = ''/'' then ls
      else if setItem_throws b then ls
      else ls(LOCATION_KEY \<mapsto> Json \<lparr>lastLocation = Some path, timestamp = now b\<rparr>))"

definition clearStoredLocation :: "browser \<Rightarrow> localStorage \<Rightarrow> localStorage" where
  "clearStoredLocation b ls = (if \<not> window_defined b then ls else ls(LOCATION_KEY := None))"

definition getStoredLocation :: "browser \<Rightarrow> localStorage \<Rightarrow> string option \<times> localStorage" where
  "getStoredLocation b ls =
     (if \<not> window_defined b then (None, ls)
      else case ls LOCATION_KEY of
             None \<Rightarrow> (None, ls)
           | Some Unparsable \<Rightarrow> (None, ls)
           | Some (Json sessionState) \<Rightarrow>
               if now b - timestamp sessionState > SESSION_TIMEOUT
               then (None, clearStoredLocation b ls)
               else (lastLocation sessionState, ls))"

definition excludedPaths :: "string list" where
  "excludedPaths = [''/auth/callback'', ''/'', ''/login'', ''/signup'']"

definition shouldStorePath :: "string \<Rightarrow> bool" where
  "shouldStorePath path \<longleftrightarrow> path \<notin> set excludedPaths \<and> \<not> prefix ''/auth/'' path"

definition getDefaultRedirectPath :: string where
  "getDefaultRedirectPath = ''/momentum''"

text \<open>
  \<open>storedLocation || default\<close>: \<open>null\<close> and the empty string both fall through to the
  default path.
\<close>

definition getRedirectPath :: "browser \<Rightarrow> localStorage \<Rightarrow> string \<times> localStorage" where
  "getRedirectPath b ls =
     (case getStoredLocation b ls of
        (None, ls') \<Rightarrow> (getDefaultRedirectPath, ls')
      | (Some p, ls') \<Rightarrow> (if p = [] then getDefaultRedirectPath else p, ls'))"


section \<open>Portfolio service: the backend and the service object\<close>

text \<open>
  The service talks to the hosted backend through the vendor SDK. Every SDK query resolves
  to an object with the two fields \<open>data\<close> and \<open>error\<close>; a query is taken to resolve
  always (the SDK reports failures in \<open>error\<close>). Console output is not modelled; the
  session lookup at the head of \<open>getPortfolioByQuarter\<close> only decides a console warning
  and therefore leaves no trace here.
\<close>

record PostgrestError =
  message :: string
  code :: string

record 'a response =
  data :: "'a option"
  error :: "PostgrestError option"

datatype 'a outcome = Throw PostgrestError | Return 'a

text \<open>
  JavaScript numbers are IEEE-754 doubles: their sums and quotients are rounded, depend
  on the order of the operands and may be infinite or not a number. The type of numbers
  \<open>'n\<close> and its arithmetic are therefore parameters of the model: the literal \<open>0\<close>, the
  operators \<open>+\<close> and \<open>/\<close>, and the number that stands for a count. Nothing is assumed of
  them (no associativity, no commutativity, no exactness), so whatever is proved holds
  of the doubles of the runtime. Only the row count is a natural number: counting up by
  one from 0 is exact in doubles far beyond the length of any array.
\<close>

record 'n arith =
  num_zero :: 'n
  num_add :: "'n \<Rightarrow> 'n \<Rightarrow> 'n"
  num_div :: "'n \<Rightarrow> 'n \<Rightarrow> 'n"
  num_of_nat :: "nat \<Rightarrow> 'n"

text \<open>
  The three columns that \<open>getQuartersSummary\<close> selects, the per-quarter accumulator held
  in its grouping map, and the summary it returns.
\<close>

record 'n item =
  quarter :: string
  weight :: 'n
  quarterly_returns :: 'n

record 'n summary =
  total_stocks :: nat
  total_returns :: 'n
  total_weight :: 'n

record 'n QuarterSummary =
  quarter :: string
  total_stocks :: nat
  avg_returns :: 'n
  total_weight :: 'n

text \<open>
  The backend as the service sees it: one field per query the service issues. The first
  argument of each is the number of requests issued before it, so that the table may
  answer differently over time. Rows of the table are opaque to the service (type \<open>'r\<close>),
  as are the objects it inserts (\<open>'c\<close>) and the partial updates (\<open>'u\<close>);
  the latest-quarter query returns the \<open>quarter\<close> column only, the summary query three
  columns, two of them numbers (\<open>'n\<close>).
\<close>

record ('r, 'c, 'u, 'n) supabase =
  select_eq_quarter :: "nat \<Rightarrow> string \<Rightarrow> 'r list response"
  select_latest_quarter :: "nat \<Rightarrow> string list response"
  select_summary_columns :: "nat \<Rightarrow> 'n item list response"
  insert_single :: "nat \<Rightarrow> 'c \<Rightarrow> 'r response"
  update_eq_id :: "nat \<Rightarrow> int \<Rightarrow> 'u \<Rightarrow> 'r response"
  delete_eq_id :: "nat \<Rightarrow> int \<Rightarrow> unit response"
  insert_many :: "nat \<Rightarrow> 'c list \<Rightarrow> 'r list response"
  select_ilike :: "nat \<Rightarrow> string \<Rightarrow> string option \<Rightarrow> 'r list response"

text \<open>
  A real-time channel, with the \<open>quarter\<close> argument its change handler closed over when
  it was created.
\<close>

record channel =
  chan_id :: nat
  chan_quarter :: "string option"

text \<open>
  The fields of the \<open>PortfolioService\<close> singleton (\<open>realtimeChannel\<close>, \<open>subscribers\<close>,
  \<open>connectionRetries\<close>), followed by what the service does to its environment: the number
  of requests issued, the delays awaited through \<open>setTimeout\<close> in order, the channels
  currently subscribed at the backend, the next fresh channel identity, and the number of
  reconnect timers armed and not yet fired. A callback is identified by a value of type
  \<open>'cb\<close>; the \<open>Set\<close> of subscribers is a duplicate-free list in insertion order.
\<close>

record 'cb state =
  realtimeChannel :: "channel option"
  subscribers :: "'cb list"
  connectionRetries :: nat
  requests :: nat
  sleeps :: "nat list"
  open_channels :: "nat set"
  next_channel :: nat
  pending_reconnects :: nat

definition maxRetries :: nat where
  "maxRetries = 3"

definition retryDelay :: nat where
  "retryDelay = 1000"

definition initial :: "'cb state" where
  "initial = \<lparr>realtimeChannel = None, subscribers = [], connectionRetries = 0, requests = 0,
              sleeps = [], open_channels = {}, next_channel = 0, pending_reconnects = 0\<rparr>"

text \<open>\<open>String.prototype.includes\<close>: the search string occurs somewhere in the string.\<close>

fun str_includes :: "string \<Rightarrow> string \<Rightarrow> bool" where
  "str_includes [] search = (search = [])"
| "str_includes (c # cs) search = (prefix search (c # cs) \<or> str_includes cs search)"

definition retryable :: "PostgrestError \<Rightarrow> bool" where
  "retryable e \<longleftrightarrow>
     str_includes (message e) ''connection'' \<or> str_includes (message e) ''network''"

definition issue :: "'cb state \<Rightarrow> 'cb state" where
  "issue s = s\<lparr>requests := requests s + 1\<rparr>"

text \<open>
  \<open>getPortfolioByQuarter\<close> issues the query; on an error it either waits and calls
  itself again (counter below \<open>maxRetries\<close> and a message that looks like a network
  failure) or throws the error; on success it resets the counter. This is a call that
  runs with no other call of the singleton in flight, so that nothing else writes the
  counter between its attempts; the recursion then ends because every retry increments
  the counter, which is bounded by \<open>maxRetries\<close>.
\<close>

function getPortfolioByQuarter ::
  "('r, 'c, 'u, 'n) supabase \<Rightarrow> string \<Rightarrow> 'cb state \<Rightarrow> 'r list outcome \<times> 'cb state" where
  "getPortfolioByQuarter sb q s =
     (let r = select_eq_quarter sb (requests s) q; s1 = issue s in
      case response.error r of
        Some e \<Rightarrow>
          if connectionRetries s1 < maxRetries \<and> retryable e
          then let s2 = s1\<lparr>connectionRetries := connectionRetries s1 + 1\<rparr>;
                   s3 = s2\<lparr>sleeps := sleeps s2 @ [retryDelay * connectionRetries s2]\<rparr>
               in getPortfolioByQuarter sb q s3
          else (Throw e, s1)
      | None \<Rightarrow>
          (Return (case data r of Some d \<Rightarrow> d | None \<Rightarrow> []), s1\<lparr>connectionRetries := 0\<rparr>))"
  by pat_completeness auto
termination
  by (relation "measure (\<lambda>(sb, q, s). maxRetries - connectionRetries s)")
     (auto simp: issue_def)

declare getPortfolioByQuarter.simps [simp del]

text \<open>The state in which \<open>getPortfolioByQuarter\<close> calls itself again after one retry.\<close>

definition retried :: "'cb state \<Rightarrow> 'cb state" where
  "retried s = s\<lparr>requests := requests s + 1,
                 connectionRetries := connectionRetries s + 1,
                 sleeps := sleeps s @ [retryDelay * (connectionRetries s + 1)]\<rparr>"

text \<open>
  The same function while other calls of the singleton are in flight. The source awaits
  the session lookup and the query before it reads \<open>connectionRetries\<close>, and awaits the
  timer between its increment and the next attempt; the test of the counter, its
  increment and the computation of the delay are one synchronous stretch. What the other
  calls do to the field during the awaits that precede the test of attempt \<open>i\<close> is
  \<open>others i c\<close>: the value they leave there when this call left \<open>c\<close>. With no other call
  in flight \<open>others i c = c\<close>. Under interference the loop need not end, so it runs
  on fuel: the outcome is \<open>None\<close> while the call is still in flight when the fuel is used
  up, and the state then shows the delays it has awaited so far.
\<close>

fun getPortfolioByQuarter_among ::
  "nat \<Rightarrow> (nat \<Rightarrow> nat \<Rightarrow> nat) \<Rightarrow> ('r, 'c, 'u, 'n) supabase \<Rightarrow> string \<Rightarrow> nat \<Rightarrow> 'cb state
     \<Rightarrow> 'r list outcome option \<times> 'cb state" where
  "getPortfolioByQuarter_among 0 others sb q i s = (None, s)"
| "getPortfolioByQuarter_among (Suc fuel) others sb q i s =
     (let r = select_eq_quarter sb (requests s) q;
          s1 = (issue s)\<lparr>connectionRetries := others i (connectionRetries s)\<rparr> in
      case response.error r of
        Some e \<Rightarrow>
          if connectionRetries s1 < maxRetries \<and> retryable e
          then let s2 = s1\<lparr>connectionRetries := connectionRetries s1 + 1\<rparr>;
                   s3 = s2\<lparr>sleeps := sleeps s2 @ [retryDelay * connectionRetries s2]\<rparr>
               in getPortfolioByQuarter_among fuel others sb q (i + 1) s3
          else (Some (Throw e), s1)
      | None \<Rightarrow>
          (Some (Return (case data r of Some d \<Rightarrow> d | None \<Rightarrow> [])),
           s1\<lparr>connectionRetries := 0\<rparr>))"

definition getLatestPortfolio ::
  "('r, 'c, 'u, 'n) supabase \<Rightarrow> 'cb state \<Rightarrow> 'r list outcome \<times> 'cb state" where
  "getLatestPortfolio sb s =
     (let r = select_latest_quarter sb (requests s); s1 = issue s in
      case response.error r of
        Some quarterError \<Rightarrow> (Throw quarterError, s1)
      | None \<Rightarrow>
          (case data r of
             None \<Rightarrow> (Return [], s1)
           | Some [] \<Rightarrow> (Return [], s1)
           | Some (latest # _) \<Rightarrow> getPortfolioByQuarter sb latest s1))"

text \<open>
  The grouping map is a JavaScript \<open>Map\<close>: an association list with distinct keys in
  insertion order. \<open>set\<close> overwrites the value of a present key in place and appends an
  absent one.
\<close>

type_synonym 'n quarterMap = "(string \<times> 'n summary) list"

fun Map_get :: "'n quarterMap \<Rightarrow> string \<Rightarrow> 'n summary option" where
  "Map_get [] k = None"
| "Map_get ((k', v) # m) k = (if k' = k then Some v else Map_get m k)"

fun Map_set :: "'n quarterMap \<Rightarrow> string \<Rightarrow> 'n summary \<Rightarrow> 'n quarterMap" where
  "Map_set [] k v = [(k, v)]"
| "Map_set ((k', v') # m) k v = (if k' = k then (k, v) # m else (k', v') # Map_set m k v)"

text \<open>
  The body of the \<open>forEach\<close>: the accumulator of the row's quarter (or a fresh one of
  zeros) with the count raised by one and the row's return and weight added on the right
  of the running totals.
\<close>

definition add_item :: "'n arith \<Rightarrow> 'n quarterMap \<Rightarrow> 'n item \<Rightarrow> 'n quarterMap" where
  "add_item ar quarterMap it =
     (let existing = (case Map_get quarterMap (item.quarter it) of
                        Some e \<Rightarrow> e
                      | None \<Rightarrow> \<lparr>summary.total_stocks = 0, total_returns = num_zero ar,
                                  summary.total_weight = num_zero ar\<rparr>)
      in Map_set quarterMap (item.quarter it)
           \<lparr>summary.total_stocks = summary.total_stocks existing + 1,
            total_returns = num_add ar (total_returns existing) (quarterly_returns it),
            summary.total_weight = num_add ar (summary.total_weight existing) (weight it)\<rparr>)"

definition group_by_quarter :: "'n arith \<Rightarrow> 'n item list \<Rightarrow> 'n quarterMap" where
  "group_by_quarter ar rows = foldl (add_item ar) [] rows"

definition summaries :: "'n arith \<Rightarrow> 'n quarterMap \<Rightarrow> 'n QuarterSummary list" where
  "summaries ar quarterMap =
     map (\<lambda>(quarter, summary).
            \<lparr>quarter = quarter,
             total_stocks = summary.total_stocks summary,
             avg_returns = num_div ar (total_returns summary)
                             (num_of_nat ar (summary.total_stocks summary)),
             total_weight = summary.total_weight summary\<rparr>) quarterMap"

definition getQuartersSummary ::
  "'n arith \<Rightarrow> ('r, 'c, 'u, 'n) supabase \<Rightarrow> 'cb state
     \<Rightarrow> 'n QuarterSummary list outcome \<times> 'cb state" where
  "getQuartersSummary ar sb s =
     (let r = select_summary_columns sb (requests s); s1 = issue s in
      case response.error r of
        Some e \<Rightarrow> (Throw e, s1)
      | None \<Rightarrow>
          (case data r of
             None \<Rightarrow> (Return [], s1)
           | Some rows \<Rightarrow>
               if length rows = 0 then (Return [], s1)
               else (Return (summaries ar (group_by_quarter ar rows)), s1)))"

definition addConstituent ::
  "('r, 'c, 'u, 'n) supabase \<Rightarrow> 'c \<Rightarrow> 'cb state \<Rightarrow> 'r option outcome \<times> 'cb state" where
  "addConstituent sb constituent s =
     (let r = insert_single sb (requests s) constituent; s1 = issue s in
      case response.error r of
        Some e \<Rightarrow> (Throw e, s1)
      | None \<Rightarrow> (Return (data r), s1))"

definition updateConstituent ::
  "('r, 'c, 'u, 'n) supabase \<Rightarrow> int \<Rightarrow> 'u \<Rightarrow> 'cb state \<Rightarrow> 'r option outcome \<times> 'cb state" where
  "updateConstituent sb ident updates s =
     (let r = update_eq_id sb (requests s) ident updates; s1 = issue s in
      case response.error r of
        Some e \<Rightarrow> (Throw e, s1)
      | None \<Rightarrow> (Return (data r), s1))"

definition deleteConstituent ::
  "('r, 'c, 'u, 'n) supabase \<Rightarrow> int \<Rightarrow> 'cb state \<Rightarrow> unit outcome \<times> 'cb state" where
  "deleteConstituent sb ident s =
     (let r = delete_eq_id sb (requests s) ident; s1 = issue s in
      case response.error r of
        Some e \<Rightarrow> (Throw e, s1)
      | None \<Rightarrow> (Return (), s1))"

definition bulkInsertConstituents ::
  "('r, 'c, 'u, 'n) supabase \<Rightarrow> 'c list \<Rightarrow> 'cb state \<Rightarrow> 'r list outcome \<times> 'cb state" where
  "bulkInsertConstituents sb constituents s =
     (let r = insert_many sb (requests s) constituents; s1 = issue s in
      case response.error r of
        Some e \<Rightarrow> (Throw e, s1)
      | None \<Rightarrow> (Return (case data r of Some d \<Rightarrow> d | None \<Rightarrow> []), s1))"

text \<open>
  \<open>if (quarter)\<close>: an absent quarter and the empty string are both falsy, and then the
  search is not restricted to a quarter.
\<close>

definition truthy :: "string option \<Rightarrow> string option" where
  "truthy qtr = (case qtr of None \<Rightarrow> None | Some q \<Rightarrow> if q = [] then None else Some q)"

definition searchConstituents ::
  "('r, 'c, 'u, 'n) supabase \<Rightarrow> string \<Rightarrow> string option \<Rightarrow> 'cb state
     \<Rightarrow> 'r list outcome \<times> 'cb state" where
  "searchConstituents sb searchTerm qtr s =
     (let r = select_ilike sb (requests s) searchTerm (truthy qtr); s1 = issue s in
      case response.error r of
        Some e \<Rightarrow> (Throw e, s1)
      | None \<Rightarrow> (Return (case data r of Some d \<Rightarrow> d | None \<Rightarrow> []), s1))"


section \<open>Real-time subscription\<close>

text \<open>\<open>Set.prototype.add\<close> and \<open>Set.prototype.delete\<close> on the insertion-ordered list.\<close>

definition Set_add :: "'a list \<Rightarrow> 'a \<Rightarrow> 'a list" where
  "Set_add xs x = (if x \<in> set xs then xs else xs @ [x])"

definition Set_delete :: "'a list \<Rightarrow> 'a \<Rightarrow> 'a list" where
  "Set_delete xs x = removeAll x xs"

text \<open>\<open>channel.unsubscribe()\<close>: the channel is no longer subscribed at the backend.\<close>

definition channel_unsubscribe :: "channel \<Rightarrow> 'cb state \<Rightarrow> 'cb state" where
  "channel_unsubscribe ch s = s\<lparr>open_channels := open_channels s - {chan_id ch}\<rparr>"

text \<open>
  \<open>subscribeToUpdates\<close> registers the callback, creates and subscribes a channel if the
  service holds none, and returns a closure; the closure is \<open>unsubscribe\<close> applied to the
  callback it captured.
\<close>

definition subscribeToUpdates :: "'cb \<Rightarrow> string option \<Rightarrow> 'cb state \<Rightarrow> 'cb state" where
  "subscribeToUpdates callback qtr s =
     (let s1 = s\<lparr>subscribers := Set_add (subscribers s) callback\<rparr> in
      case realtimeChannel s1 of
        None \<Rightarrow>
          s1\<lparr>realtimeChannel := Some \<lparr>chan_id = next_channel s1, chan_quarter = qtr\<rparr>,
             open_channels := insert (next_channel s1) (open_channels s1),
             next_channel := next_channel s1 + 1\<rparr>
      | Some ch \<Rightarrow> s1)"

definition unsubscribe :: "'cb \<Rightarrow> 'cb state \<Rightarrow> 'cb state" where
  "unsubscribe callback s =
     (let s1 = s\<lparr>subscribers := Set_delete (subscribers s) callback\<rparr> in
      case realtimeChannel s1 of
        Some ch \<Rightarrow>
          if length (subscribers s1) = 0
          then (channel_unsubscribe ch s1)\<lparr>realtimeChannel := None\<rparr>
          else s1
      | None \<Rightarrow> s1)"

text \<open>
  The status callback of the channel arms a five-second timer on \<open>CHANNEL_ERROR\<close>; when
  the timer fires, whatever channel the service holds then is unsubscribed and dropped.
\<close>

datatype status = SUBSCRIBED | CHANNEL_ERROR | TIMED_OUT | CLOSED

definition on_status :: "status \<Rightarrow> 'cb state \<Rightarrow> 'cb state" where
  "on_status st s =
     (if st = SUBSCRIBED then s
      else if st = CHANNEL_ERROR then s\<lparr>pending_reconnects := pending_reconnects s + 1\<rparr>
      else s)"

definition reconnect_timeout :: "'cb state \<Rightarrow> 'cb state" where
  "reconnect_timeout s =
     (if pending_reconnects s = 0 then s
      else let s1 = s\<lparr>pending_reconnects := pending_reconnects s - 1\<rparr>;
               s2 = (case realtimeChannel s1 of
                       Some ch \<Rightarrow> channel_unsubscribe ch s1
                     | None \<Rightarrow> s1)
           in s2\<lparr>realtimeChannel := None\<rparr>)"

text \<open>
  The state of one \<open>usePortfolioData\<close> hook, and the callback the hook subscribes: it
  overwrites the list with the one it is given, clears the error, and stamps the time.
\<close>

record ('r, 'n) hook =
  portfolioData :: "'r list"
  quarters :: "'n QuarterSummary list"
  loading :: bool
  error :: "string option"
  selectedQuarter :: "string option"
  isDataStale :: bool
  lastFetchTime :: int

definition on_update :: "int \<Rightarrow> 'r list \<Rightarrow> ('r, 'n) hook \<Rightarrow> ('r, 'n) hook" where
  "on_update t updatedData h =
     h\<lparr>portfolioData := updatedData, hook.error := None, isDataStale := False,
       lastFetchTime := t\<rparr>"

text \<open>
  \<open>subscribers.forEach\<close>: every registered callback is called with the fetched list, in
  insertion order. The view of the hook that owns callback \<open>cb\<close> is \<open>views cb\<close>.
\<close>

definition notify :: "int \<Rightarrow> 'r list \<Rightarrow> 'cb list \<Rightarrow> ('cb \<Rightarrow> ('r, 'n) hook) \<Rightarrow> ('cb \<Rightarrow> ('r, 'n) hook)" where
  "notify t updatedData subs views =
     foldl (\<lambda>v cb. v(cb := on_update t updatedData (v cb))) views subs"

text \<open>
  The change handler of a channel created with argument \<open>qtr\<close>, run at time \<open>t\<close>: it
  refetches, and broadcasts on success; a failed refetch is logged and nothing is
  broadcast. The handler is run to completion (no other event of the loop is interleaved
  with its awaits).
\<close>

definition refetch ::
  "('r, 'c, 'u, 'n) supabase \<Rightarrow> string option \<Rightarrow> 'cb state \<Rightarrow> 'r list outcome \<times> 'cb state" where
  "refetch sb qtr s =
     (case truthy qtr of
        Some q \<Rightarrow> getPortfolioByQuarter sb q s
      | None \<Rightarrow> getLatestPortfolio sb s)"

definition on_postgres_changes ::
  "('r, 'c, 'u, 'n) supabase \<Rightarrow> int \<Rightarrow> string option \<Rightarrow> 'cb state \<times> ('cb \<Rightarrow> ('r, 'n) hook)
     \<Rightarrow> 'cb state \<times> ('cb \<Rightarrow> ('r, 'n) hook)" where
  "on_postgres_changes sb t qtr sv =
     (case sv of (s, views) \<Rightarrow>
        (case refetch sb qtr s of
           (Return updatedData, s') \<Rightarrow> (s', notify t updatedData (subscribers s') views)
         | (Throw e, s') \<Rightarrow> (s', views)))"

text \<open>
  What can happen to the service between two turns of the event loop: a component
  subscribes, a returned closure is called, the channel reports a status, a reconnect
  timer fires, or the backend announces a change at some time.
\<close>

datatype 'cb event =
    Subscribe 'cb "string option"
  | Unsubscribe 'cb
  | Status status
  | ReconnectTimeout
  | Change int

fun step ::
  "('r, 'c, 'u, 'n) supabase \<Rightarrow> 'cb state \<times> ('cb \<Rightarrow> ('r, 'n) hook) \<Rightarrow> 'cb event
     \<Rightarrow> 'cb state \<times> ('cb \<Rightarrow> ('r, 'n) hook)" where
  "step sb (s, views) (Subscribe callback qtr) = (subscribeToUpdates callback qtr s, views)"
| "step sb (s, views) (Unsubscribe callback) = (unsubscribe callback s, views)"
| "step sb (s, views) (Status st) = (on_status st s, views)"
| "step sb (s, views) ReconnectTimeout = (reconnect_timeout s, views)"
| "step sb (s, views) (Change t) =
     (case realtimeChannel s of
        None \<Rightarrow> (s, views)
      | Some ch \<Rightarrow> on_postgres_changes sb t (chan_quarter ch) (s, views))"

definition run ::
  "('r, 'c, 'u, 'n) supabase \<Rightarrow> 'cb event list \<Rightarrow> 'cb state \<times> ('cb \<Rightarrow> ('r, 'n) hook)
     \<Rightarrow> 'cb state \<times> ('cb \<Rightarrow> ('r, 'n) hook)" where
  "run sb events sv = foldl (step sb) sv events"

text \<open>
  The invariant of the singleton: the channels subscribed at the backend are exactly the
  one the service holds, a channel is held only while there are subscribers, and no
  callback is registered twice.
\<close>

definition channel_invariant :: "'cb state \<Rightarrow> bool" where
  "channel_invariant s \<longleftrightarrow>
     open_channels s = (case realtimeChannel s of None \<Rightarrow> {} | Some ch \<Rightarrow> {chan_id ch}) \<and>
     (realtimeChannel s \<noteq> None \<longrightarrow> subscribers s \<noteq> []) \<and>
     distinct (subscribers s)"


section \<open>Concrete backends and states\<close>

definition network_down :: PostgrestError where
  "network_down = \<lparr>message = ''TypeError: network request failed'', code = ''0''\<rparr>"

definition denied :: PostgrestError where
  "denied = \<lparr>message = ''permission denied for table portfolio_constituents'',
             code = ''42501''\<rparr>"

definition ok :: "'a \<Rightarrow> 'a response" where
  "ok d = \<lparr>data = Some d, response.error = None\<rparr>"

definition failed :: "PostgrestError \<Rightarrow> 'a response" where
  "failed e = \<lparr>data = None, response.error = Some e\<rparr>"

text \<open>A backend whose table is empty; rows and inserted objects are numbers.\<close>

definition empty_table :: "(nat, nat, nat, real) supabase" where
  "empty_table =
     \<lparr>select_eq_quarter = (\<lambda>n q. ok []),
      select_latest_quarter = (\<lambda>n. ok []),
      select_summary_columns = (\<lambda>n. ok []),
      insert_single = (\<lambda>n c. ok c),
      update_eq_id = (\<lambda>n i u. failed denied),
      delete_eq_id = (\<lambda>n i. ok ()),
      insert_many = (\<lambda>n cs. ok cs),
      select_ilike = (\<lambda>n t q. ok [])\<rparr>"

text \<open>A backend that answers every request with the same error.\<close>

definition failing :: "PostgrestError \<Rightarrow> (nat, nat, nat, real) supabase" where
  "failing e =
     \<lparr>select_eq_quarter = (\<lambda>n q. failed e),
      select_latest_quarter = (\<lambda>n. failed e),
      select_summary_columns = (\<lambda>n. failed e),
      insert_single = (\<lambda>n c. failed e),
      update_eq_id = (\<lambda>n i u. failed e),
      delete_eq_id = (\<lambda>n i. failed e),
      insert_many = (\<lambda>n cs. failed e),
      select_ilike = (\<lambda>n t q. failed e)\<rparr>"


definition start :: "nat state" where
  "start = initial"


definition stale_view :: "(nat, real) hook" where
  "stale_view = \<lparr>portfolioData = [7], quarters = [], loading = False, error = None,
                 selectedQuarter = Some ''Q1 2024'', isDataStale = False, lastFetchTime = 0\<rparr>"

definition stale_views :: "nat \<Rightarrow> (nat, real) hook" where
  "stale_views cb = stale_view"

text \<open>Exact arithmetic on the reals, for rows whose numbers are small integers.\<close>

definition exact :: "real arith" where
  "exact = \<lparr>num_zero = 0, num_add = (+), num_div = (/), num_of_nat = real\<rparr>"

definition three_rows :: "real item list" where
  "three_rows =
     [\<lparr>item.quarter = ''Q2 2024'', weight = 60, quarterly_returns = 4\<rparr>,
      \<lparr>item.quarter = ''Q1 2024'', weight = 100, quarterly_returns = 3\<rparr>,
      \<lparr>item.quarter = ''Q2 2024'', weight = 40, quarterly_returns = 8\<rparr>]"


section \<open>The aggregate in the words of the specification\<close>

text \<open>
  The sum of a list of numbers: starting from zero, each number in turn is added on the
  right of the running total.
\<close>

definition total :: "'n arith \<Rightarrow> 'n list \<Rightarrow> 'n" where
  "total ar xs = foldl (num_add ar) (num_zero ar) xs"

text \<open>
  The aggregate the specification describes for quarter \<open>q\<close>: the number of rows of that
  quarter, the sum of their returns and the sum of their weights, the rows taken in the
  order of the input.
\<close>

definition tally :: "'n arith \<Rightarrow> 'n item list \<Rightarrow> string \<Rightarrow> 'n summary" where
  "tally ar rows q =
     \<lparr>summary.total_stocks = length (filter (\<lambda>r. item.quarter r = q) rows),
      total_returns = total ar (map quarterly_returns (filter (\<lambda>r. item.quarter r = q) rows)),
      summary.total_weight = total ar (map weight (filter (\<lambda>r. item.quarter r = q) rows))\<rparr>"


section \<open>Properties of the session manager\<close>

text \<open>
  C4, as stated: \<open>storeLocation\<close> leaves the stored location unchanged for every path of
  the denylist. It does not: its own guard names only the auth callback and the root, so
  \<open>/login\<close> is stored.
\<close>

theorem storeLocation_login_counterexample:
  "storeLocation \<lparr>window_defined = True, now = 1000, setItem_throws = False\<rparr> ''/login'' Map.empty
     LOCATION_KEY
   = Some (Json \<lparr>lastLocation = Some ''/login'', timestamp = 1000\<rparr>)"
  by (simp add: storeLocation_def)

text \<open>
  C4, amended: \<open>storeLocation\<close> leaves the storage unchanged for the root path and the
  auth callback route; the whole denylist (root, login, signup, auth callback) is what
  \<open>shouldStorePath\<close> rejects, so a caller that stores a path only when \<open>shouldStorePath\<close>
  accepts it never stores an excluded path.
\<close>

theorem storeLocation_excluded:
  "(path = ''/'' \<or> path = ''/auth/callback'' \<longrightarrow> storeLocation b path ls = ls) \<and>
   (path \<in> {''/'', ''/login'', ''/signup'', ''/auth/callback''} \<longrightarrow>
      \<not> shouldStorePath path \<and>
      (if shouldStorePath path then storeLocation b path ls else ls) = ls)"
  by (auto simp: storeLocation_def shouldStorePath_def excludedPaths_def)

theorem storeLocation_excluded_witness:
  "storeLocation \<lparr>window_defined = True, now = 1000, setItem_throws = False\<rparr> ''/'' Map.empty
     = Map.empty \<and>
   \<not> shouldStorePath ''/login''"
  using storeLocation_excluded
    [of "''/''" "\<lparr>window_defined = True, now = 1000, setItem_throws = False\<rparr>" Map.empty]
    storeLocation_excluded
    [of "''/login''" "\<lparr>window_defined = True, now = 1000, setItem_throws = False\<rparr>" Map.empty]
  by simp

text \<open>
  C5, as stated: the entry expires when \<open>now - t\<close> reaches the 24-hour threshold. The
  comparison in the code is strict, so at exactly 24 hours the stored path is still
  returned and the entry is kept.
\<close>

theorem getStoredLocation_threshold_counterexample:
  "getStoredLocation \<lparr>window_defined = True, now = 86401000, setItem_throws = False\<rparr>
     [LOCATION_KEY \<mapsto> Json \<lparr>lastLocation = Some ''/momentum'', timestamp = 1000\<rparr>]
   = (Some ''/momentum'',
      [LOCATION_KEY \<mapsto> Json \<lparr>lastLocation = Some ''/momentum'', timestamp = 1000\<rparr>])"
  by (simp add: getStoredLocation_def SESSION_TIMEOUT_def)

text \<open>
  C5, amended: for a stored entry with timestamp \<open>t\<close>, \<open>getStoredLocation\<close> called at time
  \<open>now\<close> returns the stored path and keeps the entry when \<open>now - t\<close> is at most 24 hours,
  and returns null and removes the entry when \<open>now - t\<close> exceeds 24 hours.
\<close>

theorem getStoredLocation_expiry:
  assumes "window_defined b" and "ls LOCATION_KEY = Some (Json s)"
  shows "(now b - timestamp s \<le> 24 * 60 * 60 * 1000 \<longrightarrow>
            getStoredLocation b ls = (lastLocation s, ls)) \<and>
         (now b - timestamp s > 24 * 60 * 60 * 1000 \<longrightarrow>
            getStoredLocation b ls = (None, ls(LOCATION_KEY := None)))"
  using assms
  by (simp add: getStoredLocation_def clearStoredLocation_def SESSION_TIMEOUT_def)

theorem getStoredLocation_expiry_witness:
  "getStoredLocation \<lparr>window_defined = True, now = 86401001, setItem_throws = False\<rparr>
     [LOCATION_KEY \<mapsto> Json \<lparr>lastLocation = Some ''/momentum'', timestamp = 1000\<rparr>]
   = (None, [LOCATION_KEY \<mapsto> Json \<lparr>lastLocation = Some ''/momentum'', timestamp = 1000\<rparr>]
              (LOCATION_KEY := None)) \<and>
   getStoredLocation \<lparr>window_defined = True, now = 5000, setItem_throws = False\<rparr>
     [LOCATION_KEY \<mapsto> Json \<lparr>lastLocation = Some ''/momentum'', timestamp = 1000\<rparr>]
   = (Some ''/momentum'',
      [LOCATION_KEY \<mapsto> Json \<lparr>lastLocation = Some ''/momentum'', timestamp = 1000\<rparr>])"
  using getStoredLocation_expiry
    [of "\<lparr>window_defined = True, now = 86401001, setItem_throws = False\<rparr>"
        "[LOCATION_KEY \<mapsto> Json \<lparr>lastLocation = Some ''/momentum'', timestamp = 1000\<rparr>]"
        "\<lparr>lastLocation = Some ''/momentum'', timestamp = 1000\<rparr>"]
    getStoredLocation_expiry
    [of "\<lparr>window_defined = True, now = 5000, setItem_throws = False\<rparr>"
        "[LOCATION_KEY \<mapsto> Json \<lparr>lastLocation = Some ''/momentum'', timestamp = 1000\<rparr>]"
        "\<lparr>lastLocation = Some ''/momentum'', timestamp = 1000\<rparr>"]
  by simp


section \<open>Properties of the quarter aggregation\<close>

lemma Map_get_map_of: "Map_get m k = map_of m k"
  by (induction m) auto

lemma map_of_Map_set: "map_of (Map_set m k v) = (map_of m)(k \<mapsto> v)"
  by (induction m) (auto simp: fun_eq_iff)

lemma keys_Map_set: "fst ` set (Map_set m k v) = insert k (fst ` set m)"
proof -
  have "dom (map_of (Map_set m k v)) = insert k (dom (map_of m))"
    by (simp add: map_of_Map_set)
  then show ?thesis by (simp add: dom_map_of_conv_image_fst)
qed

lemma distinct_Map_set: "distinct (map fst m) \<Longrightarrow> distinct (map fst (Map_set m k v))"
proof (induction m)
  case Nil
  then show ?case by simp
next
  case (Cons p m)
  obtain k' v' where p: "p = (k', v')" by (cases p)
  have "k' \<noteq> k \<Longrightarrow> k' \<notin> fst ` set (Map_set m k v)"
    using Cons.prems p by (simp add: keys_Map_set)
  with Cons p show ?case by auto
qed

lemma group_by_quarter_snoc:
  "group_by_quarter ar (rows @ [r]) = add_item ar (group_by_quarter ar rows) r"
  by (simp add: group_by_quarter_def)

lemma tally_absent:
  assumes "q \<notin> item.quarter ` set rows"
  shows "tally ar rows q =
           \<lparr>summary.total_stocks = 0, total_returns = num_zero ar,
            summary.total_weight = num_zero ar\<rparr>"
proof -
  have "filter (\<lambda>r. item.quarter r = q) rows = []"
    using assms by (auto simp: filter_empty_conv)
  then show ?thesis by (simp add: tally_def total_def)
qed

lemma group_by_quarter_lookup:
  "distinct (map fst (group_by_quarter ar rows)) \<and>
   map_of (group_by_quarter ar rows) =
     (\<lambda>q. if q \<in> item.quarter ` set rows then Some (tally ar rows q) else None)"
proof (induction rows rule: rev_induct)
  case Nil
  then show ?case by (simp add: group_by_quarter_def)
next
  case (snoc r rows)
  let ?m = "group_by_quarter ar rows"
  have d: "distinct (map fst ?m)" and l: "map_of ?m =
     (\<lambda>q. if q \<in> item.quarter ` set rows then Some (tally ar rows q) else None)"
    using snoc.IH by auto
  have ex: "(case Map_get ?m (item.quarter r) of Some e \<Rightarrow> e
             | None \<Rightarrow> \<lparr>summary.total_stocks = 0, total_returns = num_zero ar,
                         summary.total_weight = num_zero ar\<rparr>)
            = tally ar rows (item.quarter r)"
    by (simp add: Map_get_map_of l tally_absent)
  have step: "add_item ar ?m r =
                Map_set ?m (item.quarter r) (tally ar (rows @ [r]) (item.quarter r))"
    unfolding add_item_def ex Let_def by (simp add: tally_def total_def)
  have "distinct (map fst (group_by_quarter ar (rows @ [r])))"
    by (simp add: group_by_quarter_snoc step distinct_Map_set d)
  moreover have "map_of (group_by_quarter ar (rows @ [r])) =
     (\<lambda>q. if q \<in> item.quarter ` set (rows @ [r]) then Some (tally ar (rows @ [r]) q)
          else None)"
    unfolding group_by_quarter_snoc step map_of_Map_set l
    by (auto simp: fun_eq_iff tally_def)
  ultimately show ?case by blast
qed

lemma group_by_quarter_entry:
  assumes "(q, e) \<in> set (group_by_quarter ar rows)"
  shows "q \<in> item.quarter ` set rows \<and> e = tally ar rows q"
proof -
  have d: "distinct (map fst (group_by_quarter ar rows))"
    and l: "map_of (group_by_quarter ar rows) =
     (\<lambda>q. if q \<in> item.quarter ` set rows then Some (tally ar rows q) else None)"
    using group_by_quarter_lookup [of ar rows] by auto
  have "map_of (group_by_quarter ar rows) q = Some e"
    using assms d by simp
  then show ?thesis
    unfolding l by (auto split: if_splits)
qed

lemma group_by_quarter_keys:
  "fst ` set (group_by_quarter ar rows) = item.quarter ` set rows"
proof -
  have "dom (map_of (group_by_quarter ar rows)) = item.quarter ` set rows"
    using group_by_quarter_lookup [of ar rows] by (auto simp: dom_def)
  then show ?thesis by (simp add: dom_map_of_conv_image_fst)
qed

lemma quarters_of_summaries: "map QuarterSummary.quarter (summaries ar m) = map fst m"
  by (induction m) (auto simp: summaries_def)

text \<open>
  C1: for every list of input rows, \<open>getQuartersSummary\<close> returns one summary per distinct
  quarter label; in the summary of a quarter, \<open>total_stocks\<close> is the number of input rows
  with that quarter, \<open>total_weight\<close> the sum of their weights, and \<open>avg_returns\<close> the sum
  of their quarterly returns divided by that number. The sums are the ones the code
  accumulates: from zero, over the rows of the quarter in the order of the input, in the
  arithmetic of the runtime, of which nothing is assumed.
\<close>

theorem getQuartersSummary_aggregates:
  assumes "response.error (select_summary_columns sb (requests s)) = None"
      and "data (select_summary_columns sb (requests s)) = Some rows"
  shows "\<exists>qs. fst (getQuartersSummary ar sb s) = Return qs \<and>
           distinct (map QuarterSummary.quarter qs) \<and>
           QuarterSummary.quarter ` set qs = item.quarter ` set rows \<and>
           (\<forall>x \<in> set qs.
              QuarterSummary.total_stocks x =
                length (filter (\<lambda>r. item.quarter r = QuarterSummary.quarter x) rows) \<and>
              QuarterSummary.total_weight x =
                foldl (num_add ar) (num_zero ar)
                  (map weight (filter (\<lambda>r. item.quarter r = QuarterSummary.quarter x) rows)) \<and>
              avg_returns x =
                num_div ar
                  (foldl (num_add ar) (num_zero ar)
                     (map quarterly_returns
                        (filter (\<lambda>r. item.quarter r = QuarterSummary.quarter x) rows)))
                  (num_of_nat ar
                     (length (filter (\<lambda>r. item.quarter r = QuarterSummary.quarter x) rows))))"
proof (cases "rows = []")
  case True
  then have "fst (getQuartersSummary ar sb s) = Return []"
    using assms by (simp add: getQuartersSummary_def)
  then show ?thesis using True by simp
next
  case False
  let ?m = "group_by_quarter ar rows"
  have r: "fst (getQuartersSummary ar sb s) = Return (summaries ar ?m)"
    using assms False by (simp add: getQuartersSummary_def)
  have d: "distinct (map QuarterSummary.quarter (summaries ar ?m))"
    using group_by_quarter_lookup [of ar rows] by (simp add: quarters_of_summaries)
  have k: "QuarterSummary.quarter ` set (summaries ar ?m) = item.quarter ` set rows"
  proof -
    have "QuarterSummary.quarter ` set (summaries ar ?m)
            = set (map QuarterSummary.quarter (summaries ar ?m))"
      by simp
    also have "\<dots> = fst ` set ?m"
      by (simp only: quarters_of_summaries set_map)
    finally show ?thesis by (simp add: group_by_quarter_keys)
  qed
  have v: "QuarterSummary.total_stocks x =
             length (filter (\<lambda>r. item.quarter r = QuarterSummary.quarter x) rows) \<and>
           QuarterSummary.total_weight x =
             foldl (num_add ar) (num_zero ar)
               (map weight (filter (\<lambda>r. item.quarter r = QuarterSummary.quarter x) rows)) \<and>
           avg_returns x =
             num_div ar
               (foldl (num_add ar) (num_zero ar)
                  (map quarterly_returns
                     (filter (\<lambda>r. item.quarter r = QuarterSummary.quarter x) rows)))
               (num_of_nat ar
                  (length (filter (\<lambda>r. item.quarter r = QuarterSummary.quarter x) rows)))"
    if mem: "x \<in> set (summaries ar ?m)" for x
  proof -
    obtain p where p: "p \<in> set ?m" and xp: "x = (case p of (q, e) \<Rightarrow>
        \<lparr>quarter = q, total_stocks = summary.total_stocks e,
         avg_returns = num_div ar (total_returns e) (num_of_nat ar (summary.total_stocks e)),
         total_weight = summary.total_weight e\<rparr>)"
      using mem unfolding summaries_def by auto
    obtain q e where pq: "p = (q, e)" by (cases p)
    have qe: "(q, e) \<in> set ?m" using p pq by simp
    have x: "x =
        \<lparr>quarter = q, total_stocks = summary.total_stocks e,
         avg_returns = num_div ar (total_returns e) (num_of_nat ar (summary.total_stocks e)),
         total_weight = summary.total_weight e\<rparr>"
      using xp pq by simp
    have "e = tally ar rows q"
      using group_by_quarter_entry [OF qe] by simp
    then show ?thesis by (simp add: x tally_def total_def)
  qed
  show ?thesis using r d k v by blast
qed

theorem getQuartersSummary_aggregates_witness:
  "fst (getQuartersSummary exact
          (empty_table\<lparr>select_summary_columns := (\<lambda>n. ok three_rows)\<rparr>) start)
   = Return [\<lparr>quarter = ''Q2 2024'', total_stocks = 2, avg_returns = 6, total_weight = 100\<rparr>,
             \<lparr>quarter = ''Q1 2024'', total_stocks = 1, avg_returns = 3, total_weight = 100\<rparr>]"
proof -
  have e: "fst (getQuartersSummary exact
                  (empty_table\<lparr>select_summary_columns := (\<lambda>n. ok three_rows)\<rparr>) start)
     = Return [\<lparr>quarter = ''Q2 2024'', total_stocks = 2, avg_returns = 6, total_weight = 100\<rparr>,
               \<lparr>quarter = ''Q1 2024'', total_stocks = 1, avg_returns = 3, total_weight = 100\<rparr>]"
    by (simp add: getQuartersSummary_def empty_table_def ok_def three_rows_def start_def
        initial_def issue_def group_by_quarter_def add_item_def summaries_def exact_def)
  have "\<exists>qs. fst (getQuartersSummary exact
                      (empty_table\<lparr>select_summary_columns := (\<lambda>n. ok three_rows)\<rparr>) start)
                = Return qs \<and> distinct (map QuarterSummary.quarter qs)"
    using getQuartersSummary_aggregates
      [of "empty_table\<lparr>select_summary_columns := (\<lambda>n. ok three_rows)\<rparr>" start three_rows
          exact]
    by (auto simp: ok_def)
  then show ?thesis using e by simp
qed

text \<open>
  C10: every entry of the grouping map has \<open>total_stocks\<close> at least 1 when the summaries
  are built, so the divisor of \<open>avg_returns\<close> is never zero, whatever the input rows.
\<close>

theorem group_by_quarter_total_stocks_positive:
  assumes "(q, e) \<in> set (group_by_quarter ar rows)"
  shows "1 \<le> summary.total_stocks e \<and> real (summary.total_stocks e) \<noteq> 0"
proof -
  have q: "q \<in> item.quarter ` set rows" and e: "e = tally ar rows q"
    using group_by_quarter_entry [OF assms] by simp_all
  have ne: "filter (\<lambda>r. item.quarter r = q) rows \<noteq> []"
    using q by (auto simp: filter_empty_conv)
  then have "1 \<le> length (filter (\<lambda>r. item.quarter r = q) rows)"
    by (simp add: Suc_le_eq)
  with ne show ?thesis by (simp add: e tally_def)
qed

theorem group_by_quarter_total_stocks_positive_witness:
  "(''Q2 2024'', \<lparr>summary.total_stocks = 2, total_returns = 12, summary.total_weight = 100\<rparr>)
     \<in> set (group_by_quarter exact three_rows) \<and>
   1 \<le> summary.total_stocks
         \<lparr>summary.total_stocks = 2, total_returns = 12, summary.total_weight = 100::real\<rparr>"
proof -
  have m: "(''Q2 2024'', \<lparr>summary.total_stocks = 2, total_returns = 12, summary.total_weight = 100\<rparr>)
             \<in> set (group_by_quarter exact three_rows)"
    by (simp add: group_by_quarter_def three_rows_def add_item_def exact_def)
  show ?thesis using m group_by_quarter_total_stocks_positive [OF m] by simp
qed


section \<open>Properties of the retry path\<close>

lemma str_includes_sublist: "str_includes s search \<longleftrightarrow> sublist search s"
  by (induction s) (simp_all add: sublist_Cons_right)

lemma getPortfolioByQuarter_ok:
  assumes "response.error (select_eq_quarter sb (requests s) q) = None"
  shows "getPortfolioByQuarter sb q s =
           (Return (case data (select_eq_quarter sb (requests s) q) of Some d \<Rightarrow> d | None \<Rightarrow> []),
            s\<lparr>requests := requests s + 1, connectionRetries := 0\<rparr>)"
  using assms by (subst getPortfolioByQuarter.simps) (simp add: issue_def)

lemma getPortfolioByQuarter_throw:
  assumes "response.error (select_eq_quarter sb (requests s) q) = Some e"
      and "\<not> (connectionRetries s < maxRetries \<and> retryable e)"
  shows "getPortfolioByQuarter sb q s = (Throw e, s\<lparr>requests := requests s + 1\<rparr>)"
  using assms by (subst getPortfolioByQuarter.simps) (auto simp: issue_def)

lemma getPortfolioByQuarter_again:
  assumes "response.error (select_eq_quarter sb (requests s) q) = Some e"
      and "connectionRetries s < maxRetries" and "retryable e"
  shows "getPortfolioByQuarter sb q s = getPortfolioByQuarter sb q (retried s)"
  using assms by (subst getPortfolioByQuarter.simps) (simp add: issue_def retried_def)


lemma getPortfolioByQuarter_last_reply:
  "requests s < requests (snd (getPortfolioByQuarter sb q s)) \<and>
   fst (getPortfolioByQuarter sb q s) =
     (case response.error
             (select_eq_quarter sb (requests (snd (getPortfolioByQuarter sb q s)) - 1) q) of
        Some e \<Rightarrow> Throw e
      | None \<Rightarrow>
          Return (case data (select_eq_quarter sb
                               (requests (snd (getPortfolioByQuarter sb q s)) - 1) q) of
                    Some d \<Rightarrow> d | None \<Rightarrow> []))"
proof (induction "maxRetries - connectionRetries s" arbitrary: s rule: less_induct)
  case less
  show ?case
  proof (cases "response.error (select_eq_quarter sb (requests s) q)")
    case None
    then show ?thesis by (simp add: getPortfolioByQuarter_ok)
  next
    case (Some e)
    show ?thesis
    proof (cases "connectionRetries s < maxRetries \<and> retryable e")
      case False
      then show ?thesis using Some by (simp add: getPortfolioByQuarter_throw)
    next
      case True
      then have step: "getPortfolioByQuarter sb q s = getPortfolioByQuarter sb q (retried s)"
        using Some by (simp add: getPortfolioByQuarter_again)
      have "maxRetries - connectionRetries (retried s) < maxRetries - connectionRetries s"
        using True by (auto simp: retried_def)
      from less [OF this] have ih:
        "requests (retried s) < requests (snd (getPortfolioByQuarter sb q (retried s))) \<and>
         fst (getPortfolioByQuarter sb q (retried s)) =
           (case response.error (select_eq_quarter sb
                   (requests (snd (getPortfolioByQuarter sb q (retried s))) - 1) q) of
              Some e \<Rightarrow> Throw e
            | None \<Rightarrow>
                Return (case data (select_eq_quarter sb
                         (requests (snd (getPortfolioByQuarter sb q (retried s))) - 1) q) of
                          Some d \<Rightarrow> d | None \<Rightarrow> []))" .
      have "requests s < requests (retried s)" by (simp add: retried_def)
      with ih show ?thesis unfolding step by simp
    qed
  qed
qed

lemma getPortfolioByQuarter_frame:
  "realtimeChannel (snd (getPortfolioByQuarter sb q s)) = realtimeChannel s \<and>
   subscribers (snd (getPortfolioByQuarter sb q s)) = subscribers s \<and>
   open_channels (snd (getPortfolioByQuarter sb q s)) = open_channels s"
proof (induction "maxRetries - connectionRetries s" arbitrary: s rule: less_induct)
  case less
  show ?case
  proof (cases "response.error (select_eq_quarter sb (requests s) q)")
    case None
    then show ?thesis by (simp add: getPortfolioByQuarter_ok)
  next
    case (Some e)
    show ?thesis
    proof (cases "connectionRetries s < maxRetries \<and> retryable e")
      case False
      then show ?thesis using Some by (simp add: getPortfolioByQuarter_throw)
    next
      case True
      then have step: "getPortfolioByQuarter sb q s = getPortfolioByQuarter sb q (retried s)"
        using Some by (simp add: getPortfolioByQuarter_again)
      have "maxRetries - connectionRetries (retried s) < maxRetries - connectionRetries s"
        using True by (auto simp: retried_def)
      from less [OF this] show ?thesis
        unfolding step by (simp add: retried_def)
    qed
  qed
qed




text \<open>
  Two overlapping calls, both entered with the counter at 0, the network down: the call
  that finds the counter raised by the other one before each of its tests retries once,
  after 2000 ms. A call whose counter is reset during its third sleep (another call
  succeeded) retries six times.
\<close>

lemma getPortfolioByQuarter_among_examples:
  "getPortfolioByQuarter_among 9 (\<lambda>i c. c + 1) (failing network_down) ''Q1 2024'' 0 start
     = (Some (Throw network_down),
        start\<lparr>requests := 2, connectionRetries := 3, sleeps := [2000]\<rparr>)"
  "sleeps (snd (getPortfolioByQuarter_among 9 (\<lambda>i c. if i = 3 then 0 else c)
                  (failing network_down) ''Q1 2024'' 0 start))
     = [1000, 2000, 3000, 1000, 2000, 3000]"
  by code_simp+




text \<open>
  C3: a retry is attempted only when the message of the backend error contains
  \<open>connection\<close> or \<open>network\<close>; an error whose message contains neither is thrown at once,
  with no delay and no second request.
\<close>

theorem getPortfolioByQuarter_retry_gate:
  assumes "response.error (select_eq_quarter sb (requests s) q) = Some e"
  shows "(\<not> str_includes (message e) ''connection'' \<and> \<not> str_includes (message e) ''network''
            \<longrightarrow> getPortfolioByQuarter sb q s = (Throw e, s\<lparr>requests := requests s + 1\<rparr>)) \<and>
         (requests (snd (getPortfolioByQuarter sb q s)) \<noteq> requests s + 1 \<or>
          sleeps (snd (getPortfolioByQuarter sb q s)) \<noteq> sleeps s
            \<longrightarrow> str_includes (message e) ''connection'' \<or> str_includes (message e) ''network'')"
proof -
  have t: "getPortfolioByQuarter sb q s = (Throw e, s\<lparr>requests := requests s + 1\<rparr>)"
    if n: "\<not> retryable e"
    using assms n by (simp add: getPortfolioByQuarter_throw)
  have a: "\<not> str_includes (message e) ''connection'' \<and> \<not> str_includes (message e) ''network''
            \<longrightarrow> getPortfolioByQuarter sb q s = (Throw e, s\<lparr>requests := requests s + 1\<rparr>)"
    using t by (simp add: retryable_def)
  have b: "str_includes (message e) ''connection'' \<or> str_includes (message e) ''network''"
    if c: "requests (snd (getPortfolioByQuarter sb q s)) \<noteq> requests s + 1 \<or>
           sleeps (snd (getPortfolioByQuarter sb q s)) \<noteq> sleeps s"
  proof (rule ccontr)
    assume "\<not> (str_includes (message e) ''connection'' \<or> str_includes (message e) ''network'')"
    then have "\<not> retryable e" by (simp add: retryable_def)
    from t [OF this] c show False by simp
  qed
  show ?thesis using a b by blast
qed

theorem getPortfolioByQuarter_retry_gate_witness:
  "response.error (select_eq_quarter (failing denied) (requests start) ''Q1 2024'') = Some denied \<and>
   \<not> str_includes (message denied) ''connection'' \<and>
   \<not> str_includes (message denied) ''network'' \<and>
   getPortfolioByQuarter (failing denied) ''Q1 2024'' start
     = (Throw denied, start\<lparr>requests := requests start + 1\<rparr>)"
proof -
  have h: "response.error (select_eq_quarter (failing denied) (requests start) ''Q1 2024'')
             = Some denied"
    by (simp add: failing_def failed_def)
  have n: "\<not> str_includes (message denied) ''connection'' \<and>
           \<not> str_includes (message denied) ''network''"
    by (simp add: denied_def)
  show ?thesis
    using h n getPortfolioByQuarter_retry_gate [OF h] by simp
qed


section \<open>Properties of error propagation\<close>

text \<open>
  C8: when the latest-quarter query succeeds with no rows (an empty or a null result),
  \<open>getLatestPortfolio\<close> returns the empty list, throws nothing, and issues no second
  request.
\<close>

theorem getLatestPortfolio_empty:
  assumes "response.error (select_latest_quarter sb (requests s)) = None"
      and "data (select_latest_quarter sb (requests s)) = Some [] \<or>
           data (select_latest_quarter sb (requests s)) = None"
  shows "getLatestPortfolio sb s = (Return [], s\<lparr>requests := requests s + 1\<rparr>)"
  using assms by (auto simp: getLatestPortfolio_def issue_def)

theorem getLatestPortfolio_empty_witness:
  "response.error (select_latest_quarter empty_table (requests start)) = None \<and>
   data (select_latest_quarter empty_table (requests start)) = Some [] \<and>
   getLatestPortfolio empty_table start = (Return [], start\<lparr>requests := requests start + 1\<rparr>)"
proof -
  have e: "response.error (select_latest_quarter empty_table (requests start)) = None"
    by (simp add: empty_table_def ok_def)
  have d: "data (select_latest_quarter empty_table (requests start)) = Some []"
    by (simp add: empty_table_def ok_def)
  show ?thesis
    using e d getLatestPortfolio_empty [of empty_table start] by simp
qed

lemma getLatestPortfolio_delegates:
  assumes "response.error (select_latest_quarter sb (requests s)) = None"
      and "data (select_latest_quarter sb (requests s)) = Some (latest # others)"
  shows "getLatestPortfolio sb s = getPortfolioByQuarter sb latest (issue s)"
  using assms by (simp add: getLatestPortfolio_def)

text \<open>
  C6: in each data operation of the service, a backend call that returns an error makes
  the operation throw that error instead of returning a result. For
  \<open>getPortfolioByQuarter\<close> this holds of an error the retry gate does not apply to
  (wrong message, or the retries are used up) and, whatever the retries, of the error
  of the last reply; \<open>getLatestPortfolio\<close> throws the error of its own query and
  otherwise inherits the outcome of \<open>getPortfolioByQuarter\<close>.
\<close>

theorem remote_errors_are_thrown:
  "(response.error (select_eq_quarter sb (requests s) q) = Some e \<and>
      \<not> (connectionRetries s < maxRetries \<and> retryable e)
      \<longrightarrow> fst (getPortfolioByQuarter sb q s) = Throw e) \<and>
   (response.error
      (select_eq_quarter sb (requests (snd (getPortfolioByQuarter sb q s)) - 1) q) = Some e
      \<longrightarrow> fst (getPortfolioByQuarter sb q s) = Throw e) \<and>
   (response.error (select_latest_quarter sb (requests s)) = Some e
      \<longrightarrow> fst (getLatestPortfolio sb s) = Throw e) \<and>
   (response.error (select_latest_quarter sb (requests s)) = None \<and>
    data (select_latest_quarter sb (requests s)) = Some (latest # others) \<and>
    response.error
      (select_eq_quarter sb (requests (snd (getLatestPortfolio sb s)) - 1) latest) = Some e
      \<longrightarrow> fst (getLatestPortfolio sb s) = Throw e) \<and>
   (response.error (select_summary_columns sb (requests s)) = Some e
      \<longrightarrow> fst (getQuartersSummary ar sb s) = Throw e) \<and>
   (response.error (insert_single sb (requests s) constituent) = Some e
      \<longrightarrow> fst (addConstituent sb constituent s) = Throw e) \<and>
   (response.error (update_eq_id sb (requests s) ident updates) = Some e
      \<longrightarrow> fst (updateConstituent sb ident updates s) = Throw e) \<and>
   (response.error (delete_eq_id sb (requests s) ident) = Some e
      \<longrightarrow> fst (deleteConstituent sb ident s) = Throw e) \<and>
   (response.error (insert_many sb (requests s) constituents) = Some e
      \<longrightarrow> fst (bulkInsertConstituents sb constituents s) = Throw e) \<and>
   (response.error (select_ilike sb (requests s) searchTerm (truthy qtr)) = Some e
      \<longrightarrow> fst (searchConstituents sb searchTerm qtr s) = Throw e)"
proof -
  have a: "response.error (select_eq_quarter sb (requests s) q) = Some e \<and>
      \<not> (connectionRetries s < maxRetries \<and> retryable e)
      \<longrightarrow> fst (getPortfolioByQuarter sb q s) = Throw e"
    by (simp add: getPortfolioByQuarter_throw)
  have b: "response.error
      (select_eq_quarter sb (requests (snd (getPortfolioByQuarter sb q s)) - 1) q) = Some e
      \<longrightarrow> fst (getPortfolioByQuarter sb q s) = Throw e"
    using getPortfolioByQuarter_last_reply [of s sb q] by simp
  have c: "response.error (select_latest_quarter sb (requests s)) = Some e
      \<longrightarrow> fst (getLatestPortfolio sb s) = Throw e"
    by (simp add: getLatestPortfolio_def)
  have d: "response.error (select_latest_quarter sb (requests s)) = None \<and>
    data (select_latest_quarter sb (requests s)) = Some (latest # others) \<and>
    response.error
      (select_eq_quarter sb (requests (snd (getLatestPortfolio sb s)) - 1) latest) = Some e
      \<longrightarrow> fst (getLatestPortfolio sb s) = Throw e"
  proof (intro impI, elim conjE)
    assume ok: "response.error (select_latest_quarter sb (requests s)) = None"
      and rows: "data (select_latest_quarter sb (requests s)) = Some (latest # others)"
      and err: "response.error
        (select_eq_quarter sb (requests (snd (getLatestPortfolio sb s)) - 1) latest) = Some e"
    have g: "getLatestPortfolio sb s = getPortfolioByQuarter sb latest (issue s)"
      by (rule getLatestPortfolio_delegates [OF ok rows])
    show "fst (getLatestPortfolio sb s) = Throw e"
      using getPortfolioByQuarter_last_reply [of "issue s" sb latest] err
      unfolding g by simp
  qed
  have f: "response.error (select_summary_columns sb (requests s)) = Some e
      \<longrightarrow> fst (getQuartersSummary ar sb s) = Throw e"
    by (simp add: getQuartersSummary_def)
  have g: "response.error (insert_single sb (requests s) constituent) = Some e
      \<longrightarrow> fst (addConstituent sb constituent s) = Throw e"
    by (simp add: addConstituent_def)
  have h: "response.error (update_eq_id sb (requests s) ident updates) = Some e
      \<longrightarrow> fst (updateConstituent sb ident updates s) = Throw e"
    by (simp add: updateConstituent_def)
  have i: "response.error (delete_eq_id sb (requests s) ident) = Some e
      \<longrightarrow> fst (deleteConstituent sb ident s) = Throw e"
    by (simp add: deleteConstituent_def)
  have j: "response.error (insert_many sb (requests s) constituents) = Some e
      \<longrightarrow> fst (bulkInsertConstituents sb constituents s) = Throw e"
    by (simp add: bulkInsertConstituents_def)
  have k: "response.error (select_ilike sb (requests s) searchTerm (truthy qtr)) = Some e
      \<longrightarrow> fst (searchConstituents sb searchTerm qtr s) = Throw e"
    by (simp add: searchConstituents_def)
  show ?thesis
    using a b c d f g h i j k by blast
qed

theorem remote_errors_are_thrown_witness:
  "fst (getPortfolioByQuarter (failing denied) ''Q1 2024'' start) = Throw denied \<and>
   fst (getLatestPortfolio (failing denied) start) = Throw denied \<and>
   fst (getQuartersSummary exact (failing denied) start) = Throw denied \<and>
   fst (addConstituent (failing denied) 7 start) = Throw denied \<and>
   fst (updateConstituent (failing denied) 1 7 start) = Throw denied \<and>
   fst (deleteConstituent (failing denied) 1 start) = Throw denied \<and>
   fst (bulkInsertConstituents (failing denied) [7, 8] start) = Throw denied \<and>
   fst (searchConstituents (failing denied) ''acme'' None start) = Throw denied"
proof -
  have n: "\<not> retryable denied"
    by (simp add: retryable_def denied_def)
  show ?thesis
    using n remote_errors_are_thrown
      [where sb = "failing denied" and s = start and q = "''Q1 2024''" and e = denied
         and constituent = 7 and ident = 1 and updates = 7 and constituents = "[7, 8]"
         and searchTerm = "''acme''" and qtr = None and ar = exact]
    by (simp add: failing_def failed_def)
qed


section \<open>Properties of the real-time subscription\<close>

lemma getLatestPortfolio_frame:
  "realtimeChannel (snd (getLatestPortfolio sb s)) = realtimeChannel s \<and>
   subscribers (snd (getLatestPortfolio sb s)) = subscribers s \<and>
   open_channels (snd (getLatestPortfolio sb s)) = open_channels s"
proof (cases "response.error (select_latest_quarter sb (requests s))")
  case (Some e)
  then show ?thesis by (simp add: getLatestPortfolio_def issue_def)
next
  case None
  show ?thesis
  proof (cases "data (select_latest_quarter sb (requests s))")
    case None
    then show ?thesis
      using \<open>response.error (select_latest_quarter sb (requests s)) = None\<close>
      by (simp add: getLatestPortfolio_def issue_def)
  next
    case (Some rows)
    show ?thesis
    proof (cases rows)
      case Nil
      then show ?thesis
        using Some \<open>response.error (select_latest_quarter sb (requests s)) = None\<close>
        by (simp add: getLatestPortfolio_def issue_def)
    next
      case (Cons latest others)
      have "getLatestPortfolio sb s = getPortfolioByQuarter sb latest (issue s)"
        using Some Cons \<open>response.error (select_latest_quarter sb (requests s)) = None\<close>
        by (simp add: getLatestPortfolio_def)
      then show ?thesis
        using getPortfolioByQuarter_frame [of sb latest "issue s"]
        by (simp add: issue_def)
    qed
  qed
qed

lemma refetch_frame:
  "realtimeChannel (snd (refetch sb qtr s)) = realtimeChannel s \<and>
   subscribers (snd (refetch sb qtr s)) = subscribers s \<and>
   open_channels (snd (refetch sb qtr s)) = open_channels s"
  unfolding refetch_def
  using getPortfolioByQuarter_frame [of sb _ s] getLatestPortfolio_frame [of sb s]
  by (simp split: option.splits)

lemma on_update_twice: "on_update t d (on_update t d h) = on_update t d h"
  by (simp add: on_update_def)

lemma notify_apply:
  "notify t d subs views cb = (if cb \<in> set subs then on_update t d (views cb) else views cb)"
proof (induction subs arbitrary: views)
  case Nil
  then show ?case by (simp add: notify_def)
next
  case (Cons x subs)
  have "notify t d (x # subs) views = notify t d subs (views(x := on_update t d (views x)))"
    by (simp add: notify_def)
  then show ?case
    by (simp add: Cons.IH on_update_twice)
qed

lemma on_postgres_changes_frame:
  "realtimeChannel (fst (on_postgres_changes sb t qtr (s, views))) = realtimeChannel s \<and>
   subscribers (fst (on_postgres_changes sb t qtr (s, views))) = subscribers s \<and>
   open_channels (fst (on_postgres_changes sb t qtr (s, views))) = open_channels s"
proof -
  have "fst (on_postgres_changes sb t qtr (s, views)) = snd (refetch sb qtr s)"
    by (simp add: on_postgres_changes_def split: prod.splits outcome.splits)
  then show ?thesis by (simp add: refetch_frame)
qed

text \<open>
  C7, as stated: after every change notification each subscriber's view holds the
  refetched list. When the refetch fails there is no such list: the handler logs the
  error and calls no subscriber, so the view keeps the list it had.
\<close>

theorem change_notification_counterexample:
  "subscribers (fst (run (failing denied) [Subscribe 0 (Some ''Q1 2024''), Change 5000]
                       (start, stale_views))) = [0] \<and>
   requests (fst (run (failing denied) [Subscribe 0 (Some ''Q1 2024''), Change 5000]
                    (start, stale_views))) = 1 \<and>
   fst (refetch (failing denied) (Some ''Q1 2024'')
          (subscribeToUpdates 0 (Some ''Q1 2024'') start)) = Throw denied \<and>
   portfolioData (snd (run (failing denied) [Subscribe 0 (Some ''Q1 2024''), Change 5000]
                         (start, stale_views)) 0) = [7]"
  by (simp add: run_def start_def initial_def subscribeToUpdates_def Set_add_def
      on_postgres_changes_def refetch_def truthy_def getPortfolioByQuarter.simps issue_def
      failing_def failed_def retryable_def denied_def maxRetries_def stale_views_def
      stale_view_def)

text \<open>
  C7, amended: the handler of a change notification refetches the complete list for the
  quarter the channel was created with, or for the latest quarter when that argument is
  absent or empty. When the refetch succeeds, the view of every subscriber is
  overwritten with the fetched list, whatever it held before, and the views of
  non-subscribers are untouched; when the refetch fails, no view changes.
\<close>

theorem change_notification_replaces_views:
  "(qtr = Some q \<and> q \<noteq> [] \<longrightarrow> refetch sb qtr s = getPortfolioByQuarter sb q s) \<and>
   (qtr = None \<or> qtr = Some [] \<longrightarrow> refetch sb qtr s = getLatestPortfolio sb s) \<and>
   (\<forall>d. fst (refetch sb qtr s) = Return d \<longrightarrow>
      (\<forall>cb \<in> set (subscribers s).
         portfolioData (snd (on_postgres_changes sb t qtr (s, views)) cb) = d \<and>
         snd (on_postgres_changes sb t qtr (s, views)) cb =
           (views cb)\<lparr>portfolioData := d, hook.error := None, isDataStale := False,
                      lastFetchTime := t\<rparr>) \<and>
      (\<forall>cb. cb \<notin> set (subscribers s) \<longrightarrow>
         snd (on_postgres_changes sb t qtr (s, views)) cb = views cb)) \<and>
   (\<forall>e. fst (refetch sb qtr s) = Throw e \<longrightarrow>
      snd (on_postgres_changes sb t qtr (s, views)) = views)"
proof -
  have a: "qtr = Some q \<and> q \<noteq> [] \<longrightarrow> refetch sb qtr s = getPortfolioByQuarter sb q s"
    by (simp add: refetch_def truthy_def)
  have b: "qtr = None \<or> qtr = Some [] \<longrightarrow> refetch sb qtr s = getLatestPortfolio sb s"
    by (auto simp: refetch_def truthy_def)
  have c: "snd (on_postgres_changes sb t qtr (s, views)) = notify t d (subscribers s) views"
    if r: "fst (refetch sb qtr s) = Return d" for d
  proof -
    obtain s' where "refetch sb qtr s = (Return d, s')"
      using r by (cases "refetch sb qtr s") simp
    moreover from this have "subscribers s' = subscribers s"
      using refetch_frame [of sb qtr s] by simp
    ultimately show ?thesis by (simp add: on_postgres_changes_def)
  qed
  have d: "snd (on_postgres_changes sb t qtr (s, views)) = views"
    if r: "fst (refetch sb qtr s) = Throw e" for e
  proof -
    obtain s' where "refetch sb qtr s = (Throw e, s')"
      using r by (cases "refetch sb qtr s") simp
    then show ?thesis by (simp add: on_postgres_changes_def)
  qed
  show ?thesis
    using a b d by (simp add: c notify_apply on_update_def)
qed

theorem change_notification_replaces_views_witness:
  "fst (refetch (empty_table\<lparr>select_eq_quarter := (\<lambda>n q. ok [1, 2, 3])\<rparr>) (Some ''Q1 2024'')
          (start\<lparr>subscribers := [0]\<rparr>)) = Return [1, 2, 3] \<and>
   portfolioData
     (snd (on_postgres_changes (empty_table\<lparr>select_eq_quarter := (\<lambda>n q. ok [1, 2, 3])\<rparr>)
             5000 (Some ''Q1 2024'') (start\<lparr>subscribers := [0]\<rparr>, stale_views)) 0) = [1, 2, 3] \<and>
   snd (on_postgres_changes (empty_table\<lparr>select_eq_quarter := (\<lambda>n q. ok [1, 2, 3])\<rparr>)
          5000 (Some ''Q1 2024'') (start\<lparr>subscribers := [0]\<rparr>, stale_views)) 1 = stale_view"
proof -
  have r: "fst (refetch (empty_table\<lparr>select_eq_quarter := (\<lambda>n q. ok [1, 2, 3])\<rparr>)
                  (Some ''Q1 2024'') (start\<lparr>subscribers := [0]\<rparr>)) = Return [1, 2, 3]"
    by (simp add: refetch_def truthy_def getPortfolioByQuarter.simps empty_table_def ok_def
        issue_def start_def initial_def)
  show ?thesis
    using r change_notification_replaces_views
      [where sb = "empty_table\<lparr>select_eq_quarter := (\<lambda>n q. ok [1, 2, 3])\<rparr>"
         and qtr = "Some ''Q1 2024''" and q = "''Q1 2024''"
         and s = "start\<lparr>subscribers := [0]\<rparr>" and t = 5000 and views = stale_views]
    by (simp add: stale_views_def)
qed

lemma removeAll_Nil_iff: "removeAll x xs = [] \<longleftrightarrow> set xs \<subseteq> {x}"
  by (induction xs) auto

lemma subscribers_unsubscribe: "subscribers (unsubscribe cb s) = removeAll cb (subscribers s)"
  by (cases "realtimeChannel s")
     (simp_all add: unsubscribe_def Set_delete_def Let_def channel_unsubscribe_def)

lemma subscribeToUpdates_invariant:
  assumes "channel_invariant s"
  shows "channel_invariant (subscribeToUpdates cb qtr s)"
proof (cases "realtimeChannel s")
  case None
  then show ?thesis
    using assms
    by (auto simp: channel_invariant_def subscribeToUpdates_def Set_add_def)
next
  case (Some ch)
  then show ?thesis
    using assms
    by (auto simp: channel_invariant_def subscribeToUpdates_def Set_add_def)
qed

lemma unsubscribe_invariant:
  assumes "channel_invariant s"
  shows "channel_invariant (unsubscribe cb s)"
proof (cases "realtimeChannel s")
  case None
  then show ?thesis
    using assms
    by (simp add: channel_invariant_def unsubscribe_def Set_delete_def distinct_removeAll)
next
  case (Some ch)
  then show ?thesis
    using assms
    by (auto simp: channel_invariant_def unsubscribe_def Set_delete_def distinct_removeAll
        channel_unsubscribe_def Let_def)
qed

lemma on_status_invariant:
  assumes "channel_invariant s"
  shows "channel_invariant (on_status st s)"
  using assms by (simp add: channel_invariant_def on_status_def)

lemma reconnect_timeout_invariant:
  assumes "channel_invariant s"
  shows "channel_invariant (reconnect_timeout s)"
  using assms
  by (cases "realtimeChannel s")
     (simp_all add: channel_invariant_def reconnect_timeout_def channel_unsubscribe_def)

lemma on_postgres_changes_invariant:
  assumes "channel_invariant s"
  shows "channel_invariant (fst (on_postgres_changes sb t qtr (s, views)))"
  using assms on_postgres_changes_frame [of sb t qtr s views]
  by (simp add: channel_invariant_def)

lemma step_invariant:
  assumes "channel_invariant (fst sv)"
  shows "channel_invariant (fst (step sb sv ev))"
proof -
  obtain s views where sv: "sv = (s, views)" by (cases sv)
  have i: "channel_invariant s" using assms sv by simp
  show ?thesis
  proof (cases ev)
    case (Subscribe cb qtr)
    then show ?thesis using i sv by (simp add: subscribeToUpdates_invariant)
  next
    case (Unsubscribe cb)
    then show ?thesis using i sv by (simp add: unsubscribe_invariant)
  next
    case (Status st)
    then show ?thesis using i sv by (simp add: on_status_invariant)
  next
    case ReconnectTimeout
    then show ?thesis using i sv by (simp add: reconnect_timeout_invariant)
  next
    case (Change t)
    then show ?thesis
      using i sv
      by (simp add: on_postgres_changes_invariant split: option.splits)
  qed
qed

lemma run_invariant:
  assumes "channel_invariant (fst sv)"
  shows "channel_invariant (fst (run sb events sv))"
  using assms
proof (induction events arbitrary: sv)
  case Nil
  then show ?case by (simp add: run_def)
next
  case (Cons ev events)
  have "run sb (ev # events) sv = run sb events (step sb sv ev)"
    by (simp add: run_def)
  then show ?case
    using Cons.IH [OF step_invariant [OF Cons.prems]] by simp
qed

text \<open>
  C9: in every state the singleton reaches from its initial state, by any sequence of
  subscriptions, calls of returned unsubscribe closures, channel status reports,
  reconnect timers and change notifications, at most one channel is subscribed at the
  backend and it is the one the service holds; the channel is non-null only while the
  subscriber set is non-empty; \<open>subscribeToUpdates\<close> leaves an existing channel in place;
  an unsubscribe closure removes exactly its own callback; and when it removes the
  last subscriber the channel is unsubscribed and reset to null.
\<close>

theorem single_channel_invariant:
  assumes "s = fst (run sb events (initial, views))"
  shows "card (open_channels s) \<le> 1 \<and>
         open_channels s = (case realtimeChannel s of None \<Rightarrow> {} | Some ch \<Rightarrow> {chan_id ch}) \<and>
         (realtimeChannel s \<noteq> None \<longrightarrow> subscribers s \<noteq> []) \<and>
         (realtimeChannel s \<noteq> None \<longrightarrow>
            realtimeChannel (subscribeToUpdates cb qtr s) = realtimeChannel s \<and>
            open_channels (subscribeToUpdates cb qtr s) = open_channels s) \<and>
         (realtimeChannel s = None \<longrightarrow>
            realtimeChannel (subscribeToUpdates cb qtr s)
              = Some \<lparr>chan_id = next_channel s, chan_quarter = qtr\<rparr> \<and>
            open_channels (subscribeToUpdates cb qtr s) = {next_channel s}) \<and>
         set (subscribers (unsubscribe cb s)) = set (subscribers s) - {cb} \<and>
         (set (subscribers s) \<subseteq> {cb} \<longrightarrow>
            realtimeChannel (unsubscribe cb s) = None \<and> open_channels (unsubscribe cb s) = {}) \<and>
         (\<not> set (subscribers s) \<subseteq> {cb} \<longrightarrow>
            realtimeChannel (unsubscribe cb s) = realtimeChannel s \<and>
            open_channels (unsubscribe cb s) = open_channels s)"
proof -
  have "channel_invariant (fst (initial, views))"
    by (simp add: channel_invariant_def initial_def)
  then have i: "channel_invariant s"
    unfolding assms by (rule run_invariant)
  have o: "open_channels s = (case realtimeChannel s of None \<Rightarrow> {} | Some ch \<Rightarrow> {chan_id ch})"
    and n: "realtimeChannel s \<noteq> None \<longrightarrow> subscribers s \<noteq> []"
    using i by (simp_all add: channel_invariant_def)
  have c: "card (open_channels s) \<le> 1"
    unfolding o by (simp split: option.splits)
  have s1: "realtimeChannel s \<noteq> None \<longrightarrow>
            realtimeChannel (subscribeToUpdates cb qtr s) = realtimeChannel s \<and>
            open_channels (subscribeToUpdates cb qtr s) = open_channels s"
    by (auto simp: subscribeToUpdates_def)
  have s2: "realtimeChannel s = None \<longrightarrow>
            realtimeChannel (subscribeToUpdates cb qtr s)
              = Some \<lparr>chan_id = next_channel s, chan_quarter = qtr\<rparr> \<and>
            open_channels (subscribeToUpdates cb qtr s) = {next_channel s}"
    using o by (simp add: subscribeToUpdates_def)
  have e: "removeAll cb (subscribers s) = [] \<longleftrightarrow> set (subscribers s) \<subseteq> {cb}"
    by (rule removeAll_Nil_iff)
  have u1: "set (subscribers (unsubscribe cb s)) = set (subscribers s) - {cb}"
    by (simp add: subscribers_unsubscribe)
  have u2: "set (subscribers s) \<subseteq> {cb} \<longrightarrow>
            realtimeChannel (unsubscribe cb s) = None \<and> open_channels (unsubscribe cb s) = {}"
    using o e
    by (cases "realtimeChannel s")
       (simp_all add: unsubscribe_def Set_delete_def channel_unsubscribe_def)
  have u3: "\<not> set (subscribers s) \<subseteq> {cb} \<longrightarrow>
            realtimeChannel (unsubscribe cb s) = realtimeChannel s \<and>
            open_channels (unsubscribe cb s) = open_channels s"
    using e
    by (cases "realtimeChannel s")
       (simp_all add: unsubscribe_def Set_delete_def channel_unsubscribe_def)
  show ?thesis
    using c o n s1 s2 u1 u2 u3 by blast
qed

theorem single_channel_invariant_witness:
  "fst (run empty_table [Subscribe 1 (Some ''Q1 2024''), Subscribe 2 None, Change 5000,
                         Unsubscribe 1] (initial, stale_views))
     = initial\<lparr>realtimeChannel := Some \<lparr>chan_id = 0, chan_quarter = Some ''Q1 2024''\<rparr>,
              subscribers := [2], requests := 1, open_channels := {0}, next_channel := 1\<rparr> \<and>
   realtimeChannel
     (unsubscribe 2
        (fst (run empty_table [Subscribe 1 (Some ''Q1 2024''), Subscribe 2 None, Change 5000,
                               Unsubscribe 1] (initial, stale_views)))) = None \<and>
   open_channels
     (unsubscribe 2
        (fst (run empty_table [Subscribe 1 (Some ''Q1 2024''), Subscribe 2 None, Change 5000,
                               Unsubscribe 1] (initial, stale_views)))) = {}"
proof -
  have r: "fst (run empty_table [Subscribe 1 (Some ''Q1 2024''), Subscribe 2 None, Change 5000,
                         Unsubscribe 1] (initial, stale_views))
     = initial\<lparr>realtimeChannel := Some \<lparr>chan_id = 0, chan_quarter = Some ''Q1 2024''\<rparr>,
              subscribers := [2], requests := 1, open_channels := {0}, next_channel := 1\<rparr>"
    by (simp add: run_def initial_def subscribeToUpdates_def unsubscribe_def Set_add_def
        Set_delete_def on_postgres_changes_def refetch_def truthy_def
        getPortfolioByQuarter.simps issue_def empty_table_def ok_def)
  have m: "set (subscribers
             (fst (run empty_table [Subscribe 1 (Some ''Q1 2024''), Subscribe 2 None, Change 5000,
                                    Unsubscribe 1] (initial, stale_views)))) \<subseteq> {2}"
    unfolding r by simp
  show ?thesis
    using r m single_channel_invariant
      [where s = "fst (run empty_table [Subscribe 1 (Some ''Q1 2024''), Subscribe 2 None,
                                        Change 5000, Unsubscribe 1] (initial, stale_views))"
         and sb = empty_table
         and events = "[Subscribe 1 (Some ''Q1 2024''), Subscribe 2 None, Change 5000,
                        Unsubscribe 1]"
         and views = stale_views and cb = 2, OF refl]
    by simp
qed

end
